theory Spec2Isabelle
  imports Main "HOL-Library.AList"
begin

section \<open>Data model of \<^verbatim>\<open>back/src/Services/VariablesManager.ts\<close>\<close>

text \<open>
  A property value of the Tiled map is a JSON value. The code inspects it only through
  \<^verbatim>\<open>typeof\<close>, through its truthiness when it is a string, and through
  \<^verbatim>\<open>JSON.stringify\<close>, which is a parameter \<open>stringify\<close> of the model.
\<close>

datatype tiled_value = VString string | VBoolean bool | VNumber int | VNull

record ITiledMapProperty =
  prop_name :: string
  prop_value :: tiled_value

record ITiledMapObject =
  obj_name :: string
  obj_type :: string
  obj_template :: "string option"
  obj_properties :: "ITiledMapProperty list option"

record ITiledMapLayer =
  layer_type :: string
  layer_objects :: "ITiledMapObject list"

record ITiledMap =
  layers :: "ITiledMapLayer list"

text \<open>The interface \<^verbatim>\<open>Variable\<close>: every field is optional.\<close>

record Variable =
  defaultValue :: "string option"
  persist :: "bool option"
  readableBy :: "string option"
  writableBy :: "string option"

record User =
  user_name :: string
  user_tags :: "string list"

text \<open>
  Every \<^verbatim>\<open>throw new Error(...)\<close> of the source is one constructor, named after the
  error taxonomy, and carries the message the source builds. \<open>PersistenceFailure\<close> is a
  rejected promise of the repository.
\<close>

datatype error =
    SchemaViolation string
  | UnknownVariable string
  | AuthorizationDenied string
  | InternalConsistency string
  | PersistenceFailure string

text \<open>
  A JavaScript \<^verbatim>\<open>Map\<close> is an association list in insertion order: \<^verbatim>\<open>get\<close> is
  \<^const>\<open>map_of\<close>, and \<^verbatim>\<open>set\<close> is \<^const>\<open>AList.update\<close>, which overwrites the value of a
  key in place and appends a new key at the end.
\<close>

record VariablesManager =
  roomUrl :: string
  mapData :: "ITiledMap option"
  variables :: "(string \<times> string) list"
  variableObjects :: "(string \<times> Variable) list option"

datatype RedisClient = RedisClient

record environment =
  redisClient :: "RedisClient option"
  NODE_ENV :: "string option"

section \<open>Schema extraction\<close>

text \<open>Truthiness of an optional string: defined and not empty.\<close>

definition truthy :: "string option \<Rightarrow> bool" where
  "truthy s = (case s of None \<Rightarrow> False | Some t \<Rightarrow> t \<noteq> [])"

definition emptyVariable :: Variable where
  "emptyVariable = \<lparr>defaultValue = None, persist = None, readableBy = None, writableBy = None\<rparr>"

text \<open>The body of the \<^verbatim>\<open>switch\<close> in \<^verbatim>\<open>iTiledObjectToVariable\<close>, for one property.\<close>

definition iTiledObjectToVariable_property ::
  "(tiled_value \<Rightarrow> string) \<Rightarrow> string \<Rightarrow> Variable \<Rightarrow> ITiledMapProperty \<Rightarrow> error + Variable" where
  \<open>iTiledObjectToVariable_property stringify oname variable property =
     (let v = prop_value property in
      if prop_name property = ''default'' then
        Inr (variable\<lparr>defaultValue := Some (stringify v)\<rparr>)
      else if prop_name property = ''persist'' then
        (case v of
           VBoolean b \<Rightarrow> Inr (variable\<lparr>persist := Some b\<rparr>)
         | _ \<Rightarrow> Inl (SchemaViolation
                 (''The persist property of variable "'' @ oname @ ''" must be a boolean'')))
      else if prop_name property = ''writableBy'' then
        (case v of
           VString s \<Rightarrow> Inr (if s \<noteq> [] then variable\<lparr>writableBy := Some s\<rparr> else variable)
         | _ \<Rightarrow> Inl (SchemaViolation
                 (''The writableBy property of variable "'' @ oname @ ''" must be a string'')))
      else if prop_name property = ''readableBy'' then
        (case v of
           VString s \<Rightarrow> Inr (if s \<noteq> [] then variable\<lparr>readableBy := Some s\<rparr> else variable)
         | _ \<Rightarrow> Inl (SchemaViolation
                 (''The readableBy property of variable "'' @ oname @ ''" must be a string'')))
      else Inr variable)\<close>

fun iTiledObjectToVariable_loop ::
  "(tiled_value \<Rightarrow> string) \<Rightarrow> string \<Rightarrow> Variable \<Rightarrow> ITiledMapProperty list \<Rightarrow> error + Variable" where
  "iTiledObjectToVariable_loop stringify oname variable [] = Inr variable"
| "iTiledObjectToVariable_loop stringify oname variable (property # rest) =
     (case iTiledObjectToVariable_property stringify oname variable property of
        Inl e \<Rightarrow> Inl e
      | Inr variable' \<Rightarrow> iTiledObjectToVariable_loop stringify oname variable' rest)"

definition iTiledObjectToVariable ::
  "(tiled_value \<Rightarrow> string) \<Rightarrow> ITiledMapObject \<Rightarrow> error + Variable" where
  "iTiledObjectToVariable stringify object =
     (case obj_properties object of
        None \<Rightarrow> Inr emptyVariable
      | Some props \<Rightarrow> iTiledObjectToVariable_loop stringify (obj_name object) emptyVariable props)"

text \<open>
  The two nested loops of \<^verbatim>\<open>findVariablesInMap\<close>. An object built from a template is
  skipped (the source prints a warning and continues).
\<close>

fun findVariablesInMap_objects ::
  "(tiled_value \<Rightarrow> string) \<Rightarrow> (string \<times> Variable) list \<Rightarrow> ITiledMapObject list
    \<Rightarrow> error + (string \<times> Variable) list" where
  "findVariablesInMap_objects stringify objects [] = Inr objects"
| "findVariablesInMap_objects stringify objects (object # rest) =
     (if obj_type object = ''variable'' then
        if truthy (obj_template object) then findVariablesInMap_objects stringify objects rest
        else
          (case iTiledObjectToVariable stringify object of
             Inl e \<Rightarrow> Inl e
           | Inr variable \<Rightarrow>
               findVariablesInMap_objects stringify
                 (AList.update (obj_name object) variable objects) rest)
      else findVariablesInMap_objects stringify objects rest)"

fun findVariablesInMap_layers ::
  "(tiled_value \<Rightarrow> string) \<Rightarrow> (string \<times> Variable) list \<Rightarrow> ITiledMapLayer list
    \<Rightarrow> error + (string \<times> Variable) list" where
  "findVariablesInMap_layers stringify objects [] = Inr objects"
| "findVariablesInMap_layers stringify objects (layer # rest) =
     (if layer_type layer = ''objectgroup'' then
        (case findVariablesInMap_objects stringify objects (layer_objects layer) of
           Inl e \<Rightarrow> Inl e
         | Inr objects' \<Rightarrow> findVariablesInMap_layers stringify objects' rest)
      else findVariablesInMap_layers stringify objects rest)"

definition findVariablesInMap ::
  "(tiled_value \<Rightarrow> string) \<Rightarrow> ITiledMap \<Rightarrow> error + (string \<times> Variable) list" where
  "findVariablesInMap stringify m = findVariablesInMap_layers stringify [] (layers m)"

section \<open>The store\<close>

text \<open>The loop of the constructor that seeds the default values.\<close>

fun seedDefaults ::
  "(string \<times> string) list \<Rightarrow> (string \<times> Variable) list \<Rightarrow> (string \<times> string) list" where
  "seedDefaults vars [] = vars"
| "seedDefaults vars ((name, variableObject) # rest) =
     (case defaultValue variableObject of
        Some d \<Rightarrow> seedDefaults (AList.update name d vars) rest
      | None \<Rightarrow> seedDefaults vars rest)"

definition VariablesManager_new ::
  "(tiled_value \<Rightarrow> string) \<Rightarrow> string \<Rightarrow> ITiledMap option \<Rightarrow> error + VariablesManager" where
  "VariablesManager_new stringify url m =
     (case m of
        None \<Rightarrow> Inr \<lparr>roomUrl = url, mapData = None, variables = [], variableObjects = None\<rparr>
      | Some tiled \<Rightarrow>
          (case findVariablesInMap stringify tiled of
             Inl e \<Rightarrow> Inl e
           | Inr objects \<Rightarrow>
               Inr \<lparr>roomUrl = url, mapData = Some tiled,
                    variables = seedDefaults [] objects, variableObjects = Some objects\<rparr>))"

definition shouldPersist :: "environment \<Rightarrow> VariablesManager \<Rightarrow> bool" where
  "shouldPersist env st =
     (redisClient env \<noteq> None \<and> (mapData st \<noteq> None \<or> NODE_ENV env = Some ''development''))"

text \<open>The loop of \<^verbatim>\<open>init\<close> over the keys of the loaded object.\<close>

fun init_loop :: "(string \<times> string) list \<Rightarrow> (string \<times> string) list \<Rightarrow> (string \<times> string) list" where
  "init_loop vars [] = vars"
| "init_loop vars ((key, val) # rest) = init_loop (AList.update key val vars) rest"

text \<open>
  \<^verbatim>\<open>init\<close> awaits \<^verbatim>\<open>variablesRepository.loadVariables(roomUrl)\<close>; the repository is the
  parameter \<open>loadVariables\<close>, and a rejected promise is an error of \<^verbatim>\<open>init\<close>. The store
  is returned with the outcome.
\<close>

definition init ::
  "environment \<Rightarrow> (string \<Rightarrow> error + (string \<times> string) list) \<Rightarrow> VariablesManager
    \<Rightarrow> (error + unit) \<times> VariablesManager" where
  "init env loadVariables st =
     (if \<not> shouldPersist env st then (Inr (), st)
      else
        (case loadVariables (roomUrl st) of
           Inl e \<Rightarrow> (Inl e, st)
         | Inr loaded \<Rightarrow> (Inr (), st\<lparr>variables := init_loop (variables st) loaded\<rparr>)))"

text \<open>\<^verbatim>\<open>tags.join(", ")\<close>\<close>

fun join :: "string list \<Rightarrow> string" where
  "join [] = []"
| "join [t] = t"
| "join (t # ts) = t @ '', '' @ join ts"

text \<open>
  \<^verbatim>\<open>setVariable\<close> returns its outcome (the thrown error, or the returned
  \<^verbatim>\<open>readableBy\<close>), the store after the call, and the calls it made to
  \<^verbatim>\<open>variablesRepository.saveVariable\<close> (room, name, value). The failure of a save is
  caught and logged by the source, so it has no part in the outcome.
\<close>

definition setVariable ::
  "VariablesManager \<Rightarrow> string \<Rightarrow> string \<Rightarrow> User
    \<Rightarrow> (error + string option) \<times> VariablesManager \<times> (string \<times> string \<times> string) list" where
  \<open>setVariable st name val user =
     (let commit = (\<lambda>readable.
            (Inr readable, st\<lparr>variables := AList.update name val (variables st)\<rparr>,
             [(roomUrl st, name, val)]))
      in
      case variableObjects st of
        None \<Rightarrow> commit None
      | Some objects \<Rightarrow>
          (case map_of objects name of
             None \<Rightarrow>
               (Inl (UnknownVariable
                  (''Trying to set a variable "'' @ name
                    @ ''" that is not defined as an object in the map.'')), st, [])
           | Some variableObject \<Rightarrow>
               (case writableBy variableObject of
                  None \<Rightarrow> commit (readableBy variableObject)
                | Some w \<Rightarrow>
                    if w \<noteq> [] \<and> w \<notin> set (user_tags user) then
                      (Inl (AuthorizationDenied
                         (''Trying to set a variable "'' @ name @ ''". User "''
                           @ user_name user
                           @ ''" does not have sufficient permission. Required tag: "'' @ w
                           @ ''". User tags: '' @ join (user_tags user) @ ''.'')), st, [])
                    else commit (readableBy variableObject))))\<close>

text \<open>
  The loop of \<^verbatim>\<open>getVariablesForTags\<close> over the entries of the value map. A string is
  falsy exactly when it is empty, so \<^verbatim>\<open>!variableObject.readableBy\<close> holds for an absent
  and for an empty tag.
\<close>

fun getVariablesForTags_loop ::
  "(string \<times> Variable) list \<Rightarrow> string list \<Rightarrow> (string \<times> string) list
    \<Rightarrow> (string \<times> string) list \<Rightarrow> error + (string \<times> string) list" where
  \<open>getVariablesForTags_loop objects tags readableVariables [] = Inr readableVariables\<close>
| \<open>getVariablesForTags_loop objects tags readableVariables ((key, val) # rest) =
     (case map_of objects key of
        None \<Rightarrow>
          Inl (InternalConsistency
            (''Unexpected variable "'' @ key @ ''" found has no associated variableObject.''))
      | Some variableObject \<Rightarrow>
          if (case readableBy variableObject of
                None \<Rightarrow> True
              | Some r \<Rightarrow> r = [] \<or> r \<in> set tags)
          then getVariablesForTags_loop objects tags (AList.update key val readableVariables) rest
          else getVariablesForTags_loop objects tags readableVariables rest)\<close>

definition getVariablesForTags ::
  "VariablesManager \<Rightarrow> string list \<Rightarrow> error + (string \<times> string) list" where
  "getVariablesForTags st tags =
     (case variableObjects st of
        None \<Rightarrow> Inr (variables st)
      | Some objects \<Rightarrow> getVariablesForTags_loop objects tags [] (variables st))"

section \<open>The stores the code can produce\<close>

text \<open>
  The fields of the store are private: a store is built by the constructor and changed
  by \<^verbatim>\<open>init\<close> and \<^verbatim>\<open>setVariable\<close> only (\<^verbatim>\<open>getVariablesForTags\<close> changes nothing).
\<close>

inductive reachable :: "VariablesManager \<Rightarrow> bool" where
  constructed: "VariablesManager_new stringify url m = Inr st \<Longrightarrow> reachable st"
| after_init: "reachable st \<Longrightarrow> reachable (snd (init env loadVariables st))"
| after_setVariable: "reachable st \<Longrightarrow> reachable (fst (snd (setVariable st name val user)))"

text \<open>What every reachable store satisfies (see \<open>reachable_store_inv\<close>).\<close>

definition tags_ok :: "Variable \<Rightarrow> bool" where
  "tags_ok d = (readableBy d \<noteq> Some [] \<and> writableBy d \<noteq> Some [])"

definition schema_inv :: "(string \<times> Variable) list \<Rightarrow> bool" where
  "schema_inv objects =
     (distinct (map fst objects) \<and> list_all (\<lambda>(n, d). tags_ok d) objects)"

definition store_inv :: "VariablesManager \<Rightarrow> bool" where
  "store_inv st =
     (distinct (map fst (variables st))
      \<and> (case variableObjects st of None \<Rightarrow> mapData st = None
          | Some objects \<Rightarrow> mapData st \<noteq> None \<and> schema_inv objects))"

text \<open>The invariant of the data model: every stored key is declared in the schema.\<close>

definition all_declared :: "VariablesManager \<Rightarrow> bool" where
  "all_declared st =
     (case variableObjects st of
        None \<Rightarrow> True
      | Some objects \<Rightarrow> list_all (\<lambda>(k, v). map_of objects k \<noteq> None) (variables st))"

text \<open>The entries of the value map that a holder of \<open>tags\<close> may read, by the schema.\<close>

definition visible :: "(string \<times> Variable) list \<Rightarrow> string list \<Rightarrow> string \<times> string \<Rightarrow> bool" where
  "visible objects tags entry =
     (case map_of objects (fst entry) of
        None \<Rightarrow> False
      | Some d \<Rightarrow> (case readableBy d of None \<Rightarrow> True | Some r \<Rightarrow> r \<in> set tags))"

section \<open>Vocabulary of the schema rules\<close>

text \<open>
  An object of the map qualifies when it lies in an object layer, has the type
  \<open>variable\<close> and is not built from a template.
\<close>

definition qualifying :: "ITiledMap \<Rightarrow> ITiledMapObject \<Rightarrow> bool" where
  "qualifying m object =
     (list_ex (\<lambda>layer. layer_type layer = ''objectgroup'' \<and> object \<in> set (layer_objects layer))
        (layers m)
      \<and> obj_type object = ''variable'' \<and> \<not> truthy (obj_template object))"

text \<open>
  A property is malformed when it is named \<open>persist\<close> and is not a boolean, or is named
  \<open>writableBy\<close> or \<open>readableBy\<close> and is not a string.
\<close>

definition malformed :: "ITiledMapProperty \<Rightarrow> bool" where
  "malformed p =
     (if prop_name p = ''persist'' then
        (case prop_value p of VBoolean b \<Rightarrow> False | _ \<Rightarrow> True)
      else if prop_name p = ''writableBy'' \<or> prop_name p = ''readableBy'' then
        (case prop_value p of VString s \<Rightarrow> False | _ \<Rightarrow> True)
      else False)"

text \<open>The value of the last property named \<open>n\<close> in a list of properties.\<close>

fun lastValue :: "string \<Rightarrow> ITiledMapProperty list \<Rightarrow> tiled_value option" where
  "lastValue n [] = None"
| "lastValue n (p # ps) =
     (case lastValue n ps of
        Some v \<Rightarrow> Some v
      | None \<Rightarrow> if prop_name p = n then Some (prop_value p) else None)"

section \<open>A room used in the examples\<close>

text \<open>
  The scenario of the specification: \<open>score\<close> has the default \<open>0\<close>, is persisted and is
  writable by \<open>player\<close>; \<open>secret\<close> is readable by \<open>admin\<close> and is not persisted.
  \<open>stringify0\<close> stands for \<^verbatim>\<open>JSON.stringify\<close> on the only default value of the example.
\<close>

definition stringify0 :: "tiled_value \<Rightarrow> string" where
  "stringify0 v = ''0''"

definition score_object :: ITiledMapObject where
  "score_object =
     \<lparr>obj_name = ''score'', obj_type = ''variable'', obj_template = None,
      obj_properties = Some
        [\<lparr>prop_name = ''default'', prop_value = VNumber 0\<rparr>,
         \<lparr>prop_name = ''persist'', prop_value = VBoolean True\<rparr>,
         \<lparr>prop_name = ''writableBy'', prop_value = VString ''player''\<rparr>,
         \<lparr>prop_name = ''readableBy'', prop_value = VString []\<rparr>]\<rparr>"

definition example_map :: ITiledMap where
  "example_map =
     \<lparr>layers =
        [\<lparr>layer_type = ''tilelayer'', layer_objects = []\<rparr>,
         \<lparr>layer_type = ''objectgroup'',
          layer_objects =
            [score_object,
             \<lparr>obj_name = ''secret'', obj_type = ''variable'', obj_template = None,
              obj_properties = Some
                [\<lparr>prop_name = ''readableBy'', prop_value = VString ''admin''\<rparr>]\<rparr>]\<rparr>]\<rparr>"

definition example_schema :: "(string \<times> Variable) list" where
  "example_schema =
     [(''score'', \<lparr>defaultValue = Some ''0'', persist = Some True, readableBy = None,
                   writableBy = Some ''player''\<rparr>),
      (''secret'', \<lparr>defaultValue = None, persist = None, readableBy = Some ''admin'',
                    writableBy = None\<rparr>)]"

definition example_store :: VariablesManager where
  "example_store =
     \<lparr>roomUrl = ''room'', mapData = Some example_map, variables = [(''score'', ''0'')],
      variableObjects = Some example_schema\<rparr>"

definition schemaless_store :: VariablesManager where
  "schemaless_store = \<lparr>roomUrl = ''room'', mapData = None, variables = [], variableObjects = None\<rparr>"

definition player :: User where
  "player = \<lparr>user_name = ''Alice'', user_tags = [''player'']\<rparr>"

definition guest :: User where
  "guest = \<lparr>user_name = ''Bob'', user_tags = [''guest'']\<rparr>"

definition redis_env :: environment where
  "redis_env = \<lparr>redisClient = Some RedisClient, NODE_ENV = Some ''production''\<rparr>"

definition no_redis_env :: environment where
  "no_redis_env = \<lparr>redisClient = None, NODE_ENV = Some ''production''\<rparr>"

text \<open>A backend that holds, for every room, one value saved under a name the map lacks.\<close>

definition stale_backend :: "string \<Rightarrow> error + (string \<times> string) list" where
  "stale_backend url = Inr [(''ghost'', ''1'')]"

text \<open>An object whose \<open>persist\<close> property is a string.\<close>

definition bad_object :: ITiledMapObject where
  "bad_object =
     \<lparr>obj_name = ''broken'', obj_type = ''variable'', obj_template = None,
      obj_properties = Some [\<lparr>prop_name = ''persist'', prop_value = VString ''yes''\<rparr>]\<rparr>"

definition bad_map :: ITiledMap where
  "bad_map = \<lparr>layers = [\<lparr>layer_type = ''objectgroup'', layer_objects = [bad_object]\<rparr>]\<rparr>"

text \<open>A backend that holds the value \<open>42\<close> of \<open>score\<close> for the room of the examples.\<close>

definition saved_backend :: "string \<Rightarrow> error + (string \<times> string) list" where
  "saved_backend url = (if url = ''room'' then Inr [(''score'', ''42'')] else Inr [])"

section \<open>Evaluation of the examples\<close>

lemma example_new: "VariablesManager_new stringify0 ''room'' (Some example_map) = Inr example_store"
  by (simp add: VariablesManager_new_def findVariablesInMap_def example_map_def score_object_def
      iTiledObjectToVariable_def iTiledObjectToVariable_property_def emptyVariable_def
      truthy_def stringify0_def example_store_def example_schema_def)

lemma stale_init:
  "init redis_env stale_backend example_store
     = (Inr (), example_store\<lparr>variables := [(''score'', ''0''), (''ghost'', ''1'')]\<rparr>)"
  by (simp add: init_def shouldPersist_def redis_env_def stale_backend_def example_store_def)

lemma schemaless_new: "VariablesManager_new stringify0 ''room'' None = Inr schemaless_store"
  by (simp add: VariablesManager_new_def schemaless_store_def)

lemma example_reachable: "reachable example_store"
  by (rule reachable.constructed [OF example_new])

lemma schemaless_reachable: "reachable schemaless_store"
  by (rule reachable.constructed [OF schemaless_new])

section \<open>Invariants of the reachable stores\<close>

lemma property_tags_ok:
  "iTiledObjectToVariable_property sf n var p = Inr var' \<Longrightarrow> tags_ok var \<Longrightarrow> tags_ok var'"
  by (auto simp: iTiledObjectToVariable_property_def tags_ok_def Let_def
      split: if_splits tiled_value.splits)

lemma loop_tags_ok:
  "iTiledObjectToVariable_loop sf n var ps = Inr var' \<Longrightarrow> tags_ok var \<Longrightarrow> tags_ok var'"
proof (induction ps arbitrary: var)
  case Nil
  then show ?case by simp
next
  case (Cons p ps)
  then show ?case
    by (auto split: sum.splits dest: property_tags_ok)
qed

lemma object_tags_ok: "iTiledObjectToVariable sf object = Inr var \<Longrightarrow> tags_ok var"
  by (auto simp: iTiledObjectToVariable_def split: option.splits
      dest: loop_tags_ok simp: tags_ok_def emptyVariable_def)

lemma schema_inv_update:
  assumes "schema_inv objects" and "tags_ok d"
  shows "schema_inv (AList.update n d objects)"
proof -
  have "list_all (\<lambda>(n, d). tags_ok d) objects \<Longrightarrow> list_all (\<lambda>(n, d). tags_ok d) (AList.update n d objects)"
    using assms(2) by (induction objects) auto
  with assms show ?thesis
    by (simp add: schema_inv_def distinct_update tags_ok_def)
qed

lemma objects_schema_inv:
  "findVariablesInMap_objects sf objects os = Inr objects' \<Longrightarrow> schema_inv objects
    \<Longrightarrow> schema_inv objects'"
proof (induction os arbitrary: objects)
  case Nil
  then show ?case by simp
next
  case (Cons object os)
  then show ?case
    by (auto split: if_splits sum.splits intro: schema_inv_update dest: object_tags_ok)
qed

lemma layers_schema_inv:
  "findVariablesInMap_layers sf objects ls = Inr objects' \<Longrightarrow> schema_inv objects
    \<Longrightarrow> schema_inv objects'"
proof (induction ls arbitrary: objects)
  case Nil
  then show ?case by simp
next
  case (Cons l ls)
  then show ?case
    by (auto split: if_splits sum.splits dest: objects_schema_inv)
qed

lemma findVariablesInMap_schema_inv: "findVariablesInMap sf m = Inr objects \<Longrightarrow> schema_inv objects"
  unfolding findVariablesInMap_def
  by (erule layers_schema_inv) (simp add: schema_inv_def)

lemma seedDefaults_distinct:
  "distinct (map fst vars) \<Longrightarrow> distinct (map fst (seedDefaults vars objects))"
  by (induction vars objects rule: seedDefaults.induct) (auto simp: distinct_update split: option.splits)

lemma init_loop_distinct:
  "distinct (map fst vars) \<Longrightarrow> distinct (map fst (init_loop vars loaded))"
  by (induction vars loaded rule: init_loop.induct) (auto simp: distinct_update)

lemma new_store_inv: "VariablesManager_new sf url m = Inr st \<Longrightarrow> store_inv st"
  by (auto simp: VariablesManager_new_def store_inv_def seedDefaults_distinct
      split: option.splits sum.splits dest: findVariablesInMap_schema_inv)

lemma init_store_inv: "store_inv st \<Longrightarrow> store_inv (snd (init env load st))"
  by (auto simp: init_def store_inv_def init_loop_distinct split: sum.splits option.splits)

lemma setVariable_store_inv: "store_inv st \<Longrightarrow> store_inv (fst (snd (setVariable st name val user)))"
  by (auto simp: setVariable_def store_inv_def distinct_update Let_def split: option.splits)

lemma reachable_store_inv: "reachable st \<Longrightarrow> store_inv st"
  by (induction rule: reachable.induct)
    (auto intro: new_store_inv init_store_inv setVariable_store_inv)

lemma schema_inv_lookup:
  "schema_inv objects \<Longrightarrow> map_of objects n = Some d \<Longrightarrow> tags_ok d"
  by (auto simp: schema_inv_def list_all_iff dest: map_of_SomeD)

lemma reachable_lookup_tags_ok:
  "reachable st \<Longrightarrow> variableObjects st = Some objects \<Longrightarrow> map_of objects n = Some d \<Longrightarrow> tags_ok d"
  by (drule reachable_store_inv) (auto simp: store_inv_def dest: schema_inv_lookup)

section \<open>The persisted values at start-up\<close>

lemma init_loop_other:
  "k \<notin> fst ` set loaded \<Longrightarrow> map_of (init_loop vars loaded) k = map_of vars k"
  by (induction vars loaded rule: init_loop.induct) (auto simp: update_conv')

lemma init_loop_loaded:
  "distinct (map fst loaded) \<Longrightarrow> (k, v) \<in> set loaded
    \<Longrightarrow> map_of (init_loop vars loaded) k = Some v"
proof (induction vars loaded rule: init_loop.induct)
  case (1 vars)
  then show ?case by simp
next
  case (2 vars key val rest)
  show ?case
  proof (cases "(k, v) = (key, val)")
    case True
    then have "k \<notin> fst ` set rest" using "2.prems"(1) by auto
    then show ?thesis using True by (simp add: init_loop_other update_conv')
  next
    case False
    then show ?thesis using 2 by auto
  qed
qed

section \<open>Errors and results of the schema extraction\<close>

lemma property_error:
  "malformed p \<Longrightarrow> \<exists>msg. iTiledObjectToVariable_property sf n var p = Inl (SchemaViolation msg)"
  by (auto simp: malformed_def iTiledObjectToVariable_property_def Let_def
      split: if_splits tiled_value.splits)

lemma property_error_kind:
  "iTiledObjectToVariable_property sf n var p = Inl e \<Longrightarrow> \<exists>msg. e = SchemaViolation msg"
  by (auto simp: iTiledObjectToVariable_property_def Let_def split: if_splits tiled_value.splits)

lemma loop_error:
  "p \<in> set ps \<Longrightarrow> malformed p
    \<Longrightarrow> \<exists>msg. iTiledObjectToVariable_loop sf n var ps = Inl (SchemaViolation msg)"
proof (induction ps arbitrary: var)
  case Nil
  then show ?case by simp
next
  case (Cons q ps)
  show ?case
  proof (cases "iTiledObjectToVariable_property sf n var q")
    case (Inl e)
    then show ?thesis using property_error_kind [OF Inl] by auto
  next
    case (Inr var')
    then have "q \<noteq> p" using property_error [OF Cons.prems(2), of sf n var] by auto
    then have "p \<in> set ps" using Cons.prems(1) by auto
    from Cons.IH [OF this Cons.prems(2), of var'] Inr show ?thesis by simp
  qed
qed

lemma loop_error_kind:
  "iTiledObjectToVariable_loop sf n var ps = Inl e \<Longrightarrow> \<exists>msg. e = SchemaViolation msg"
  by (induction ps arbitrary: var) (auto split: sum.splits dest: property_error_kind)

lemma object_error_kind:
  "iTiledObjectToVariable sf object = Inl e \<Longrightarrow> \<exists>msg. e = SchemaViolation msg"
  by (auto simp: iTiledObjectToVariable_def split: option.splits dest: loop_error_kind)

lemma objects_error_kind:
  "findVariablesInMap_objects sf objects os = Inl e \<Longrightarrow> \<exists>msg. e = SchemaViolation msg"
  by (induction sf objects os rule: findVariablesInMap_objects.induct)
    (auto split: if_splits sum.splits dest: object_error_kind)

lemma layers_error_kind:
  "findVariablesInMap_layers sf objects ls = Inl e \<Longrightarrow> \<exists>msg. e = SchemaViolation msg"
  by (induction sf objects ls rule: findVariablesInMap_layers.induct)
    (auto split: if_splits sum.splits dest: objects_error_kind)

lemma objects_error:
  assumes "object \<in> set os" and "obj_type object = ''variable''"
    and "\<not> truthy (obj_template object)" and "iTiledObjectToVariable sf object = Inl e"
  shows "\<exists>e'. findVariablesInMap_objects sf objects os = Inl e'"
  using assms(1)
proof (induction os arbitrary: objects)
  case Nil
  then show ?case by simp
next
  case (Cons o1 os)
  show ?case
  proof (cases "o1 = object")
    case True
    then show ?thesis using assms(2-4) by simp
  next
    case False
    then have "object \<in> set os" using Cons.prems by auto
    then show ?thesis using Cons.IH by (auto split: sum.splits)
  qed
qed

lemma layers_error:
  assumes "layer \<in> set ls" and "layer_type layer = ''objectgroup''"
    and "\<And>objects. \<exists>e'. findVariablesInMap_objects sf objects (layer_objects layer) = Inl e'"
  shows "\<exists>e'. findVariablesInMap_layers sf objects ls = Inl e'"
  using assms(1)
proof (induction ls arbitrary: objects)
  case Nil
  then show ?case by simp
next
  case (Cons l ls)
  show ?case
  proof (cases "l = layer")
    case True
    then show ?thesis using assms(2) assms(3) [of objects] by auto
  next
    case False
    then have "layer \<in> set ls" using Cons.prems by auto
    then show ?thesis using Cons.IH by (auto split: sum.splits)
  qed
qed

lemma new_error:
  assumes "qualifying m object" and "iTiledObjectToVariable sf object = Inl e"
  shows "\<exists>msg. VariablesManager_new sf url (Some m) = Inl (SchemaViolation msg)"
proof -
  from assms(1) obtain layer where layer: "layer \<in> set (layers m)"
      "layer_type layer = ''objectgroup''" "object \<in> set (layer_objects layer)"
    and obj: "obj_type object = ''variable''" "\<not> truthy (obj_template object)"
    by (auto simp: qualifying_def list_ex_iff)
  have "\<exists>e'. findVariablesInMap_objects sf objects (layer_objects layer) = Inl e'" for objects
    using layer(3) obj assms(2) by (rule objects_error)
  with layer(1,2) have "\<exists>e'. findVariablesInMap_layers sf [] (layers m) = Inl e'"
    by (rule layers_error)
  then obtain e' where e': "findVariablesInMap sf m = Inl e'"
    by (auto simp: findVariablesInMap_def)
  then obtain msg where "e' = SchemaViolation msg"
    unfolding findVariablesInMap_def by (auto dest: layers_error_kind)
  with e' show ?thesis by (simp add: VariablesManager_new_def)
qed

lemma property_default:
  "iTiledObjectToVariable_property sf n var p = Inr var'
    \<Longrightarrow> defaultValue var' = (if prop_name p = ''default'' then Some (sf (prop_value p))
                              else defaultValue var)"
  by (auto simp: iTiledObjectToVariable_property_def Let_def split: if_splits tiled_value.splits)

lemma loop_default:
  "iTiledObjectToVariable_loop sf n var ps = Inr var'
    \<Longrightarrow> defaultValue var' = (case lastValue ''default'' ps of
                                None \<Rightarrow> defaultValue var | Some v \<Rightarrow> Some (sf v))"
proof (induction ps arbitrary: var)
  case Nil
  then show ?case by simp
next
  case (Cons p ps)
  then show ?case
    by (auto split: sum.splits option.splits dest!: property_default)
qed

lemma property_tag_unset:
  "iTiledObjectToVariable_property sf n var p = Inr var'
    \<Longrightarrow> (prop_name p = ''writableBy'' \<longrightarrow> prop_value p = VString [])
    \<Longrightarrow> writableBy var' = writableBy var"
  "iTiledObjectToVariable_property sf n var p = Inr var'
    \<Longrightarrow> (prop_name p = ''readableBy'' \<longrightarrow> prop_value p = VString [])
    \<Longrightarrow> readableBy var' = readableBy var"
  by (auto simp: iTiledObjectToVariable_property_def Let_def split: if_splits tiled_value.splits)

lemma loop_writableBy_unset:
  "iTiledObjectToVariable_loop sf n var ps = Inr var'
    \<Longrightarrow> \<forall>p \<in> set ps. prop_name p = ''writableBy'' \<longrightarrow> prop_value p = VString []
    \<Longrightarrow> writableBy var' = writableBy var"
proof (induction ps arbitrary: var)
  case Nil
  then show ?case by simp
next
  case (Cons p ps)
  then show ?case
    by (auto split: sum.splits dest!: property_tag_unset(1))
qed

lemma loop_readableBy_unset:
  "iTiledObjectToVariable_loop sf n var ps = Inr var'
    \<Longrightarrow> \<forall>p \<in> set ps. prop_name p = ''readableBy'' \<longrightarrow> prop_value p = VString []
    \<Longrightarrow> readableBy var' = readableBy var"
proof (induction ps arbitrary: var)
  case Nil
  then show ?case by simp
next
  case (Cons p ps)
  then show ?case
    by (auto split: sum.splits dest!: property_tag_unset(2))
qed

section \<open>The read loop\<close>

lemma update_fresh: "k \<notin> fst ` set al \<Longrightarrow> AList.update k v al = al @ [(k, v)]"
  by (induction al) auto

lemma getVariablesForTags_loop_filter:
  assumes "schema_inv objects"
  shows "list_all (\<lambda>(k, v). map_of objects k \<noteq> None) rest
    \<Longrightarrow> distinct (map fst (acc @ rest))
    \<Longrightarrow> getVariablesForTags_loop objects tags acc rest
        = Inr (acc @ filter (visible objects tags) rest)"
proof (induction rest arbitrary: acc)
  case Nil
  then show ?case by simp
next
  case (Cons entry rest)
  obtain key val where entry: "entry = (key, val)" by (cases entry)
  from Cons.prems(1) entry obtain d where d: "map_of objects key = Some d" by auto
  have ok: "tags_ok d" using assms d by (rule schema_inv_lookup)
  have fresh: "key \<notin> fst ` set acc" using Cons.prems(2) entry by auto
  have rest_declared: "list_all (\<lambda>(k, v). map_of objects k \<noteq> None) rest"
    using Cons.prems(1) by simp
  show ?case
  proof (cases "visible objects tags entry")
    case True
    have "distinct (map fst ((acc @ [(key, val)]) @ rest))"
      using Cons.prems(2) entry by auto
    from Cons.IH [OF rest_declared this] True d ok show ?thesis
      by (auto simp: entry visible_def update_fresh [OF fresh] tags_ok_def split: option.splits)
  next
    case False
    have "distinct (map fst (acc @ rest))"
      using Cons.prems(2) by auto
    from Cons.IH [OF rest_declared this] False d ok show ?thesis
      by (auto simp: entry visible_def tags_ok_def split: option.splits)
  qed
qed

lemma getVariablesForTags_loop_undeclared:
  "\<not> list_all (\<lambda>(k, v). map_of objects k \<noteq> None) rest
    \<Longrightarrow> \<exists>msg. getVariablesForTags_loop objects tags acc rest = Inl (InternalConsistency msg)"
  by (induction objects tags acc rest rule: getVariablesForTags_loop.induct)
    (auto split: option.splits)

section \<open>What a write forwards to the backend\<close>

text \<open>Every successful call of \<^verbatim>\<open>setVariable\<close> makes exactly one call of
  \<^verbatim>\<open>saveVariable\<close>, whatever the schema and the environment say; a rejected call makes none.\<close>

lemma setVariable_saves:
  "snd (snd (setVariable st name val user))
     = (case fst (setVariable st name val user) of
          Inl e \<Rightarrow> [] | Inr r \<Rightarrow> [(roomUrl st, name, val)])"
  by (simp add: setVariable_def Let_def split: option.splits)

section \<open>The claims\<close>

text \<open>
  C1 (the code departs from the claim). The claim: a successful write is forwarded to the
  backend exactly when the variable is marked \<open>persist\<close>, or, without a schema, when
  \<open>shouldPersist\<close> allows it. The code forwards every successful write: the write to
  \<open>secret\<close>, which has no \<open>persist\<close> flag, is saved, and so is a write to a store
  without a schema in an environment without a backend, where \<open>shouldPersist\<close> is false.
\<close>

theorem setVariable_saves_unconditionally:
  "setVariable example_store ''secret'' ''x'' guest
     = (Inr (Some ''admin''), example_store\<lparr>variables := [(''score'', ''0''), (''secret'', ''x'')]\<rparr>,
        [(''room'', ''secret'', ''x'')])
   \<and> map_option persist (map_of example_schema ''secret'') = Some None
   \<and> \<not> shouldPersist no_redis_env schemaless_store
   \<and> setVariable schemaless_store ''any'' ''v'' guest
       = (Inr None, schemaless_store\<lparr>variables := [(''any'', ''v'')]\<rparr>, [(''room'', ''any'', ''v'')])"
  by (simp add: example_store_def example_schema_def schemaless_store_def setVariable_def
      guest_def shouldPersist_def no_redis_env_def)

theorem setVariable_saves_unconditionally_witness:
  "persist \<lparr>defaultValue = None, persist = None, readableBy = Some ''admin'', writableBy = None\<rparr>
     = None
   \<and> snd (snd (setVariable example_store ''secret'' ''x'' guest)) = [(''room'', ''secret'', ''x'')]
   \<and> redisClient no_redis_env = None
   \<and> snd (snd (setVariable schemaless_store ''any'' ''v'' guest)) = [(''room'', ''any'', ''v'')]"
  using setVariable_saves_unconditionally by (simp add: no_redis_env_def)

text \<open>
  C2 (the code departs from the claim). The claim: in a store with a schema every key of
  the value map has a definition in the schema. \<^verbatim>\<open>init\<close> copies every loaded pair into
  the value map without looking at the schema: with a backend that holds a value under
  the name \<open>ghost\<close>, the store built from the example map holds \<open>ghost\<close> after
  \<^verbatim>\<open>init\<close>, and the schema has no definition of it.
\<close>

theorem init_stores_undeclared_key:
  \<open>VariablesManager_new stringify0 ''room'' (Some example_map) = Inr example_store
   \<and> all_declared example_store
   \<and> init redis_env stale_backend example_store
       = (Inr (), example_store\<lparr>variables := [(''score'', ''0''), (''ghost'', ''1'')]\<rparr>)
   \<and> variableObjects (snd (init redis_env stale_backend example_store)) = Some example_schema
   \<and> map_of (variables (snd (init redis_env stale_backend example_store))) ''ghost'' = Some ''1''
   \<and> map_of example_schema ''ghost'' = None
   \<and> \<not> all_declared (snd (init redis_env stale_backend example_store))\<close>
  by (simp add: example_new stale_init)
    (simp add: example_store_def example_schema_def all_declared_def)

theorem init_stores_undeclared_key_witness:
  "fst ` set (variables (snd (init redis_env stale_backend example_store))) = {''score'', ''ghost''}
   \<and> fst ` set example_schema = {''score'', ''secret''}"
  using init_stores_undeclared_key by (simp add: example_schema_def)

text \<open>
  C3. In a store with a schema, a write to a declared variable whose definition has a
  \<open>writableBy\<close> tag, by a user whose tags do not contain it, throws the authorization
  error (whose message names the variable, the user, the required tag and the user's
  tags), saves nothing and leaves the store, hence the value map and the value of the
  variable, as it was.
\<close>

theorem setVariable_rejects_missing_tag:
  assumes "reachable st" and "variableObjects st = Some objects"
    and "map_of objects name = Some d" and "writableBy d = Some w"
    and "w \<notin> set (user_tags user)"
  shows \<open>setVariable st name val user =
           (Inl (AuthorizationDenied
              (''Trying to set a variable "'' @ name @ ''". User "'' @ user_name user
                @ ''" does not have sufficient permission. Required tag: "'' @ w
                @ ''". User tags: '' @ join (user_tags user) @ ''.'')), st, [])
         \<and> variables (fst (snd (setVariable st name val user))) = variables st
         \<and> map_of (variables (fst (snd (setVariable st name val user)))) name
             = map_of (variables st) name\<close>
proof -
  have "tags_ok d"
    using assms(1-3) by (rule reachable_lookup_tags_ok)
  then have "w \<noteq> []"
    using assms(4) by (auto simp: tags_ok_def)
  then show ?thesis
    using assms(2-5) by (simp add: setVariable_def Let_def)
qed

theorem setVariable_rejects_missing_tag_witness:
  \<open>setVariable example_store ''score'' ''42'' guest =
     (Inl (AuthorizationDenied
        (''Trying to set a variable "score". User "Bob" does not have sufficient permission. Required tag: "player". User tags: guest.'')),
      example_store, [])
   \<and> variables (fst (snd (setVariable example_store ''score'' ''42'' guest)))
       = [(''score'', ''0'')]\<close>
  using setVariable_rejects_missing_tag [of example_store example_schema "''score''"
      "\<lparr>defaultValue = Some ''0'', persist = Some True, readableBy = None,
        writableBy = Some ''player''\<rparr>" "''player''" guest "''42''"]
    example_reachable
  by (simp add: example_store_def example_schema_def guest_def)

text \<open>
  C4. \<^verbatim>\<open>setVariable\<close> throws the unknown-variable error exactly when a schema exists
  and has no definition of the name; without a schema it accepts every name, checks no
  tag and never throws.
\<close>

theorem setVariable_unknown_iff:
  "((\<exists>msg. fst (setVariable st name val user) = Inl (UnknownVariable msg))
      \<longleftrightarrow> (\<exists>objects. variableObjects st = Some objects \<and> map_of objects name = None))
   \<and> (variableObjects st = None \<longrightarrow>
        setVariable st name val user =
          (Inr None, st\<lparr>variables := AList.update name val (variables st)\<rparr>,
           [(roomUrl st, name, val)]))"
  by (auto simp: setVariable_def Let_def split: option.splits)

theorem setVariable_unknown_iff_witness:
  \<open>fst (setVariable example_store ''ghost'' ''1'' player)
     = Inl (UnknownVariable
         ''Trying to set a variable "ghost" that is not defined as an object in the map.'')
   \<and> map_of example_schema ''ghost'' = None
   \<and> setVariable schemaless_store ''ghost'' ''1'' guest
       = (Inr None, schemaless_store\<lparr>variables := [(''ghost'', ''1'')]\<rparr>,
          [(''room'', ''ghost'', ''1'')])\<close>
  using setVariable_unknown_iff [of example_store "''ghost''" "''1''" player]
    setVariable_unknown_iff [of schemaless_store "''ghost''" "''1''" guest]
  by (simp add: example_store_def example_schema_def schemaless_store_def setVariable_def)

text \<open>
  C5 (amended). For a store with a schema in which every stored key is declared,
  \<^verbatim>\<open>getVariablesForTags\<close> returns exactly the entries of the value map whose definition
  has no \<open>readableBy\<close> tag or has one that is among the tags; when some stored key has
  no definition it throws the internal-consistency error instead; without a schema it
  returns the whole value map.
\<close>

theorem getVariablesForTags_visible:
  assumes "reachable st"
  shows "(variableObjects st = None \<longrightarrow> getVariablesForTags st tags = Inr (variables st))
    \<and> (\<forall>objects. variableObjects st = Some objects \<longrightarrow>
         (all_declared st \<longrightarrow>
            getVariablesForTags st tags = Inr (filter (visible objects tags) (variables st)))
         \<and> (\<not> all_declared st \<longrightarrow>
            (\<exists>msg. getVariablesForTags st tags = Inl (InternalConsistency msg))))"
proof -
  have inv: "store_inv st" using assms by (rule reachable_store_inv)
  show ?thesis
  proof (cases "variableObjects st")
    case None
    then show ?thesis by (simp add: getVariablesForTags_def)
  next
    case (Some objects)
    have schema: "schema_inv objects" and dist: "distinct (map fst ([] @ variables st))"
      using inv Some by (auto simp: store_inv_def)
    show ?thesis
      using Some getVariablesForTags_loop_filter [OF schema _ dist, of tags]
        getVariablesForTags_loop_undeclared [of objects "variables st" tags "[]"]
      by (auto simp: getVariablesForTags_def all_declared_def)
  qed
qed

theorem getVariablesForTags_visible_witness:
  \<open>getVariablesForTags example_store [''guest''] = Inr [(''score'', ''0'')]
   \<and> getVariablesForTags schemaless_store [''guest''] = Inr []
   \<and> getVariablesForTags (snd (init redis_env stale_backend example_store)) []
       = Inl (InternalConsistency
           ''Unexpected variable "ghost" found has no associated variableObject.'')\<close>
proof -
  have r: "reachable (snd (init redis_env stale_backend example_store))"
    by (rule reachable.after_init [OF example_reachable])
  show ?thesis
    using getVariablesForTags_visible [OF example_reachable, of "[''guest'']"]
      getVariablesForTags_visible [OF schemaless_reachable, of "[''guest'']"]
      getVariablesForTags_visible [OF r, of "[]"]
    by (simp add: stale_init)
      (simp add: example_store_def example_schema_def schemaless_store_def all_declared_def
        visible_def getVariablesForTags_def)
qed

text \<open>
  C5, as stated, fails: after \<^verbatim>\<open>init\<close> has loaded the undeclared name \<open>ghost\<close> into
  the store of the example, \<^verbatim>\<open>getVariablesForTags\<close> throws and returns no entries.
\<close>

theorem getVariablesForTags_throws_on_stale_key:
  \<open>reachable (snd (init redis_env stale_backend example_store))
   \<and> variableObjects (snd (init redis_env stale_backend example_store)) = Some example_schema
   \<and> getVariablesForTags (snd (init redis_env stale_backend example_store)) []
       = Inl (InternalConsistency
           ''Unexpected variable "ghost" found has no associated variableObject.'')
   \<and> getVariablesForTags (snd (init redis_env stale_backend example_store)) []
       \<noteq> Inr (filter (visible example_schema [])
               (variables (snd (init redis_env stale_backend example_store))))\<close>
proof -
  have r: "reachable (snd (init redis_env stale_backend example_store))"
    by (rule reachable.after_init [OF example_reachable])
  show ?thesis
    using r by (simp add: stale_init)
      (simp add: example_store_def example_schema_def getVariablesForTags_def)
qed

text \<open>
  C6. A successful \<^verbatim>\<open>setVariable\<close> returns the \<open>readableBy\<close> tag of the definition of
  the variable, which is absent when the definition has none, and returns the absent
  value when the store has no schema.
\<close>

theorem setVariable_returns_readableBy:
  assumes "fst (setVariable st name val user) = Inr r"
  shows "r = (case variableObjects st of
                None \<Rightarrow> None
              | Some objects \<Rightarrow>
                  (case map_of objects name of None \<Rightarrow> None | Some d \<Rightarrow> readableBy d))"
  using assms by (auto simp: setVariable_def Let_def split: option.splits if_splits)

theorem setVariable_returns_readableBy_witness:
  "fst (setVariable example_store ''secret'' ''x'' guest) = Inr (Some ''admin'')
   \<and> fst (setVariable example_store ''score'' ''42'' player) = Inr None
   \<and> fst (setVariable schemaless_store ''score'' ''42'' guest) = Inr None"
  using setVariable_returns_readableBy [of example_store "''secret''" "''x''" guest "Some ''admin''"]
    setVariable_returns_readableBy [of example_store "''score''" "''42''" player None]
    setVariable_returns_readableBy [of schemaless_store "''score''" "''42''" guest None]
  by (simp add: example_store_def example_schema_def schemaless_store_def setVariable_def
      guest_def player_def)

text \<open>
  C7. For a qualifying object of the map: a \<open>persist\<close> property that is not a boolean,
  or a \<open>writableBy\<close> or \<open>readableBy\<close> property that is not a string, makes the
  conversion of the object and the construction of the store fail with a schema error;
  a \<open>writableBy\<close> or \<open>readableBy\<close> property that is the empty string leaves the
  variable as it was, so that a tag is never the empty string and is unset when all the
  properties of its name are empty; and a \<open>default\<close> property stores the JSON encoding
  of its value, the last such property deciding the default of the variable.
\<close>

theorem schema_property_rules:
  assumes "qualifying m object" and "obj_properties object = Some props"
    and "property \<in> set props"
  shows
    "(malformed property \<longrightarrow>
        (\<exists>msg. iTiledObjectToVariable sf object = Inl (SchemaViolation msg))
        \<and> (\<exists>msg. VariablesManager_new sf url (Some m) = Inl (SchemaViolation msg)))
     \<and> ((prop_name property = ''writableBy'' \<or> prop_name property = ''readableBy'')
          \<and> prop_value property = VString [] \<longrightarrow>
          iTiledObjectToVariable_property sf (obj_name object) var property = Inr var)
     \<and> (prop_name property = ''default'' \<longrightarrow>
          iTiledObjectToVariable_property sf (obj_name object) var property
            = Inr (var\<lparr>defaultValue := Some (sf (prop_value property))\<rparr>))
     \<and> (\<forall>variable. iTiledObjectToVariable sf object = Inr variable \<longrightarrow>
          tags_ok variable
          \<and> ((\<forall>p \<in> set props. prop_name p = ''writableBy'' \<longrightarrow> prop_value p = VString [])
                \<longrightarrow> writableBy variable = None)
          \<and> ((\<forall>p \<in> set props. prop_name p = ''readableBy'' \<longrightarrow> prop_value p = VString [])
                \<longrightarrow> readableBy variable = None)
          \<and> defaultValue variable = map_option sf (lastValue ''default'' props))"
proof (intro conjI impI allI)
  assume bad: "malformed property"
  from loop_error [OF assms(3) bad, of sf "obj_name object" emptyVariable]
  show err: "\<exists>msg. iTiledObjectToVariable sf object = Inl (SchemaViolation msg)"
    by (simp add: iTiledObjectToVariable_def assms(2))
  then obtain msg where "iTiledObjectToVariable sf object = Inl (SchemaViolation msg)" ..
  with assms(1) show "\<exists>msg. VariablesManager_new sf url (Some m) = Inl (SchemaViolation msg)"
    by (rule new_error)
next
  assume "(prop_name property = ''writableBy'' \<or> prop_name property = ''readableBy'')
    \<and> prop_value property = VString []"
  then show "iTiledObjectToVariable_property sf (obj_name object) var property = Inr var"
    by (auto simp: iTiledObjectToVariable_property_def)
next
  assume "prop_name property = ''default''"
  then show "iTiledObjectToVariable_property sf (obj_name object) var property
      = Inr (var\<lparr>defaultValue := Some (sf (prop_value property))\<rparr>)"
    by (simp add: iTiledObjectToVariable_property_def)
next
  fix variable
  assume ok: "iTiledObjectToVariable sf object = Inr variable"
  then show "tags_ok variable" by (rule object_tags_ok)
  from ok have loop: "iTiledObjectToVariable_loop sf (obj_name object) emptyVariable props = Inr variable"
    by (simp add: iTiledObjectToVariable_def assms(2))
  show "defaultValue variable = map_option sf (lastValue ''default'' props)"
    using loop_default [OF loop] by (simp add: emptyVariable_def split: option.splits)
  {
    assume "\<forall>p \<in> set props. prop_name p = ''writableBy'' \<longrightarrow> prop_value p = VString []"
    with loop show "writableBy variable = None"
      by (auto dest: loop_writableBy_unset simp: emptyVariable_def)
  }
  {
    assume "\<forall>p \<in> set props. prop_name p = ''readableBy'' \<longrightarrow> prop_value p = VString []"
    with loop show "readableBy variable = None"
      by (auto dest: loop_readableBy_unset simp: emptyVariable_def)
  }
qed

theorem schema_property_rules_witness:
  \<open>iTiledObjectToVariable stringify0 bad_object
     = Inl (SchemaViolation ''The persist property of variable "broken" must be a boolean'')
   \<and> VariablesManager_new stringify0 ''room'' (Some bad_map)
     = Inl (SchemaViolation ''The persist property of variable "broken" must be a boolean'')
   \<and> iTiledObjectToVariable stringify0 score_object
     = Inr \<lparr>defaultValue = Some ''0'', persist = Some True, readableBy = None,
            writableBy = Some ''player''\<rparr>
   \<and> lastValue ''default'' (the (obj_properties score_object)) = Some (VNumber 0)\<close>
proof -
  have q1: "qualifying bad_map bad_object"
    by (simp add: qualifying_def bad_map_def bad_object_def truthy_def)
  have q2: "qualifying example_map score_object"
    by (simp add: qualifying_def example_map_def score_object_def truthy_def)
  note r1 = schema_property_rules [OF q1, of
      "[\<lparr>prop_name = ''persist'', prop_value = VString ''yes''\<rparr>]"
      "\<lparr>prop_name = ''persist'', prop_value = VString ''yes''\<rparr>" stringify0 "''room''" emptyVariable]
  note r2 = schema_property_rules [OF q2, of
      "[\<lparr>prop_name = ''default'', prop_value = VNumber 0\<rparr>,
        \<lparr>prop_name = ''persist'', prop_value = VBoolean True\<rparr>,
        \<lparr>prop_name = ''writableBy'', prop_value = VString ''player''\<rparr>,
        \<lparr>prop_name = ''readableBy'', prop_value = VString []\<rparr>]"
      "\<lparr>prop_name = ''readableBy'', prop_value = VString []\<rparr>" stringify0 "''room''" emptyVariable]
  have e1: \<open>iTiledObjectToVariable stringify0 bad_object
     = Inl (SchemaViolation ''The persist property of variable "broken" must be a boolean'')\<close>
    by (simp add: iTiledObjectToVariable_def bad_object_def iTiledObjectToVariable_property_def)
  have e2: \<open>VariablesManager_new stringify0 ''room'' (Some bad_map)
     = Inl (SchemaViolation ''The persist property of variable "broken" must be a boolean'')\<close>
    by (simp add: VariablesManager_new_def findVariablesInMap_def bad_map_def e1)
      (simp add: bad_object_def truthy_def)
  have e3: "iTiledObjectToVariable stringify0 score_object
     = Inr \<lparr>defaultValue = Some ''0'', persist = Some True, readableBy = None,
            writableBy = Some ''player''\<rparr>"
    by (simp add: iTiledObjectToVariable_def score_object_def iTiledObjectToVariable_property_def
        emptyVariable_def stringify0_def)
  show ?thesis
    using r1 r2 e1 e2 e3 by (simp add: score_object_def bad_object_def)
qed

text \<open>
  C8. \<open>shouldPersist\<close> holds exactly when a backend is configured and the room has map
  data or the process runs in development mode. When it does not hold, \<^verbatim>\<open>init\<close>
  returns the store as it was. Otherwise, when the backend answers with the pairs
  \<open>loaded\<close> (the keys of an object are distinct), every loaded pair is in the value map
  afterwards, also over a seeded default, every other name keeps its value, and the
  schema is untouched.
\<close>

theorem init_overlays_persisted:
  "(shouldPersist env st \<longleftrightarrow>
      redisClient env \<noteq> None \<and> (mapData st \<noteq> None \<or> NODE_ENV env = Some ''development''))
   \<and> (\<not> shouldPersist env st \<longrightarrow> init env load st = (Inr (), st))
   \<and> (shouldPersist env st \<and> load (roomUrl st) = Inr loaded \<and> distinct (map fst loaded) \<longrightarrow>
        fst (init env load st) = Inr ()
        \<and> (\<forall>(k, v) \<in> set loaded. map_of (variables (snd (init env load st))) k = Some v)
        \<and> (\<forall>k. k \<notin> fst ` set loaded \<longrightarrow>
              map_of (variables (snd (init env load st))) k = map_of (variables st) k)
        \<and> variableObjects (snd (init env load st)) = variableObjects st)"
  by (auto simp: init_def shouldPersist_def init_loop_other init_loop_loaded)

theorem init_overlays_persisted_witness:
  "shouldPersist redis_env example_store
   \<and> \<not> shouldPersist no_redis_env example_store
   \<and> \<not> shouldPersist redis_env schemaless_store
   \<and> init no_redis_env saved_backend example_store = (Inr (), example_store)
   \<and> map_of (variables (snd (init redis_env saved_backend example_store))) ''score'' = Some ''42''
   \<and> map_of (variables (snd (init redis_env saved_backend example_store))) ''secret'' = None"
  using init_overlays_persisted [of redis_env example_store saved_backend "[(''score'', ''42'')]"]
    init_overlays_persisted [of no_redis_env example_store saved_backend "[]"]
    init_overlays_persisted [of redis_env schemaless_store saved_backend "[]"]
  by (simp add: redis_env_def no_redis_env_def example_store_def schemaless_store_def
      saved_backend_def)

text \<open>
  C9. When \<^verbatim>\<open>setVariable\<close> succeeds, the same call made again succeeds with the same
  result and leaves the store as the first call left it, so \<^verbatim>\<open>getVariablesForTags\<close>
  gives the same answer for every tag set.
\<close>

theorem setVariable_idempotent:
  assumes "setVariable st name val user = (Inr r, st1, saved)"
  shows "fst (setVariable st1 name val user) = Inr r
         \<and> fst (snd (setVariable st1 name val user)) = st1
         \<and> getVariablesForTags (fst (snd (setVariable st1 name val user))) tags
             = getVariablesForTags st1 tags"
  using assms by (auto simp: setVariable_def Let_def split: option.splits if_splits)

theorem setVariable_idempotent_witness:
  "setVariable example_store ''score'' ''42'' player
     = (Inr None, example_store\<lparr>variables := [(''score'', ''42'')]\<rparr>, [(''room'', ''score'', ''42'')])
   \<and> fst (snd (setVariable (example_store\<lparr>variables := [(''score'', ''42'')]\<rparr>) ''score'' ''42'' player))
       = example_store\<lparr>variables := [(''score'', ''42'')]\<rparr>
   \<and> getVariablesForTags
        (fst (snd (setVariable (example_store\<lparr>variables := [(''score'', ''42'')]\<rparr>) ''score'' ''42'' player))) []
       = Inr [(''score'', ''42'')]"
proof -
  have first: "setVariable example_store ''score'' ''42'' player
     = (Inr None, example_store\<lparr>variables := [(''score'', ''42'')]\<rparr>, [(''room'', ''score'', ''42'')])"
    by (simp add: example_store_def example_schema_def setVariable_def player_def)
  have vis: "getVariablesForTags (example_store\<lparr>variables := [(''score'', ''42'')]\<rparr>) []
      = Inr [(''score'', ''42'')]"
    by (simp add: example_store_def example_schema_def getVariablesForTags_def)
  show ?thesis
    using setVariable_idempotent [OF first, of "[]"] first vis by simp
qed

text \<open>
  C10. A successful \<^verbatim>\<open>setVariable\<close> changes the value of the written name only:
  every other name keeps its value, and the schema, the map data and the room are
  unchanged.
\<close>

theorem setVariable_frame:
  assumes "setVariable st name val user = (Inr r, st', saved)"
  shows "(\<forall>n. n \<noteq> name \<longrightarrow> map_of (variables st') n = map_of (variables st) n)
         \<and> map_of (variables st') name = Some val
         \<and> variableObjects st' = variableObjects st
         \<and> mapData st' = mapData st \<and> roomUrl st' = roomUrl st"
  using assms
  by (auto simp: setVariable_def Let_def update_conv' split: option.splits if_splits)

theorem setVariable_frame_witness:
  "map_of (variables (example_store\<lparr>variables := [(''score'', ''0''), (''secret'', ''x'')]\<rparr>)) ''score''
     = Some ''0''
   \<and> variableObjects (example_store\<lparr>variables := [(''score'', ''0''), (''secret'', ''x'')]\<rparr>)
       = Some example_schema"
proof -
  have call: "setVariable example_store ''secret'' ''x'' guest
     = (Inr (Some ''admin''), example_store\<lparr>variables := [(''score'', ''0''), (''secret'', ''x'')]\<rparr>,
        [(''room'', ''secret'', ''x'')])"
    by (simp add: example_store_def example_schema_def setVariable_def guest_def)
  show ?thesis
    using setVariable_frame [OF call] by (simp add: example_store_def)
qed

end
